theory Spec2Isabelle
  imports Complex_Main "HOL-Library.Word" "HOL-Library.Sublist"
begin

unbundle bit_operations_syntax

text \<open>
  A model of the probes of \<open>src/utils/privacy.ts\<close>: the hash primitive, the
  geolocation probe with its chain of providers, the WebRTC probe, the ad-blocker probe,
  the canvas and font probes and the latency probe. What a probe reads from the browser
  or the network is an explicit environment; an exception is a branch of the model; a
  loop is a recursive function. The definitions come first, the properties after them.
\<close>

section \<open>The hash primitive (hashString, privacy.ts lines 132-140)\<close>

text \<open>
  A JavaScript string is a sequence of UTF-16 code units; \<open>charCodeAt\<close> reads one of
  them as a number between 0 and 65535. The strings the code produces itself (hexadecimal
  digits, fixed messages) are plain \<open>string\<close>s.
\<close>

type_synonym jsstring = "16 word list"

text \<open>
  JavaScript numbers that hold integers are modelled as \<open>int\<close>. The bitwise operators
  first convert their operands with ToInt32, which wraps an integer into the range of
  32-bit two's complement.
\<close>

definition to_int32 :: "int \<Rightarrow> int" where
  "to_int32 x = (x + 2 ^ 31) mod 2 ^ 32 - 2 ^ 31"

text \<open>\<open>a << n\<close>: both operands converted, the shift count taken modulo 32.\<close>

definition js_shl :: "int \<Rightarrow> nat \<Rightarrow> int" where
  "js_shl a n = to_int32 (to_int32 a * 2 ^ (n mod 32))"

text \<open>\<open>a & b\<close>: bitwise conjunction of the two converted operands.\<close>

definition js_and :: "int \<Rightarrow> int \<Rightarrow> int" where
  "js_and a b = to_int32 a AND to_int32 b"

text \<open>
  The body of the loop:
  \<^verbatim>\<open>hash = ((hash << 5) - hash) + char; hash = hash & hash;\<close>
\<close>

definition hash_step :: "int \<Rightarrow> 16 word \<Rightarrow> int" where
  "hash_step hash c =
     (let char = uint c;
          hash1 = (js_shl hash 5 - hash) + char
      in js_and hash1 hash1)"

fun hash_loop :: "int \<Rightarrow> jsstring \<Rightarrow> int" where
  "hash_loop hash [] = hash"
| "hash_loop hash (c # cs) = hash_loop (hash_step hash c) cs"

definition hexDigit :: "nat \<Rightarrow> char" where
  "hexDigit d = ''0123456789abcdef'' ! d"

text \<open>The digits of a natural number in base 16, most significant first.\<close>

function toHex :: "nat \<Rightarrow> string" where
  "toHex n = (if n < 16 then [hexDigit n] else toHex (n div 16) @ [hexDigit (n mod 16)])"
  by pat_completeness auto
termination
  by (relation "measure (\<lambda>n. n)") auto

declare toHex.simps [simp del]

text \<open>Reading such digits back, to say what number a rendering denotes.\<close>

definition digitValue :: "char \<Rightarrow> nat" where
  "digitValue c = length (takeWhile (\<lambda>d. d \<noteq> c) ''0123456789abcdef'')"

definition hexValue :: "string \<Rightarrow> nat" where
  "hexValue ds = foldl (\<lambda>v c. v * 16 + digitValue c) 0 ds"

text \<open>\<open>Number.prototype.toString(16)\<close> on an integer: a minus sign, then the digits.\<close>

definition toString16 :: "int \<Rightarrow> string" where
  "toString16 x = (if x < 0 then CHR ''-'' # toHex (nat (- x)) else toHex (nat x))"

definition hashString :: "jsstring \<Rightarrow> string" where
  "hashString str = toString16 \<bar>hash_loop 0 str\<bar>"

text \<open>
  The hash as the specification words it: starting at 0, for each character code
  \<open>hash := hash * 31 + c\<close>, truncated to the 32-bit signed range at each step.
\<close>

definition spec_hash_step :: "int \<Rightarrow> 16 word \<Rightarrow> int" where
  "spec_hash_step h c = to_int32 (h * 31 + uint c)"

definition spec_hash_fold :: "jsstring \<Rightarrow> int" where
  "spec_hash_fold s = foldl spec_hash_step 0 s"

section \<open>The geolocation probe (getIPInfo, privacy.ts lines 28-90)\<close>

text \<open>
  The values \<open>response.json()\<close> can deliver, together with \<open>undefined\<close>, which reading
  a missing property gives. An object is the list of its members in the order of the
  text; where a key occurs twice the later member counts.
\<close>

datatype jsval =
    JUndefined
  | JNull
  | JBool bool
  | JNum real
  | JStr string
  | JArr "jsval list"
  | JObj "(string \<times> jsval) list"

text \<open>Truthiness, as \<open>||\<close>, \<open>&&\<close> and the conditional operator test it.\<close>

fun truthy :: "jsval \<Rightarrow> bool" where
  "truthy JUndefined = False"
| "truthy JNull = False"
| "truthy (JBool b) = b"
| "truthy (JNum x) = (x \<noteq> 0)"
| "truthy (JStr s) = (s \<noteq> [])"
| "truthy (JArr xs) = True"
| "truthy (JObj kvs) = True"

definition js_or :: "jsval \<Rightarrow> jsval \<Rightarrow> jsval" where
  "js_or a b = (if truthy a then a else b)"

text \<open>
  Reading a property \<open>v.k\<close>. On \<open>null\<close> and \<open>undefined\<close> it raises a TypeError
  (\<open>None\<close>). None of the keys the probe reads is an index, \<open>length\<close> or an inherited
  member, so on a number, a boolean, a string or an array the value is \<open>undefined\<close>.
\<close>

fun get_prop :: "jsval \<Rightarrow> string \<Rightarrow> jsval option" where
  "get_prop JUndefined k = None"
| "get_prop JNull k = None"
| "get_prop (JObj kvs) k =
     Some (case map_of (rev kvs) k of None \<Rightarrow> JUndefined | Some v \<Rightarrow> v)"
| "get_prop v k = Some JUndefined"

text \<open>Optional chaining \<open>v?.k\<close>: \<open>undefined\<close> where \<open>v\<close> is \<open>null\<close> or \<open>undefined\<close>.\<close>

definition get_prop_opt :: "jsval \<Rightarrow> string \<Rightarrow> jsval" where
  "get_prop_opt v k = (case get_prop v k of None \<Rightarrow> JUndefined | Some x \<Rightarrow> x)"

text \<open>
  The type assertions of the source (\<open>as string\<close>, \<open>as number\<close>) are erased when the
  program runs, so a field of the record holds whatever value the body had there.
\<close>

record IPInfo =
  ip :: jsval
  city :: jsval
  country :: jsval
  region :: jsval
  isp :: jsval
  timezone :: jsval
  latitude :: jsval
  longitude :: jsval

definition Unknown :: jsval where
  "Unknown = JStr ''Unknown''"

text \<open>The three mappers of the provider list. Each raises on a body that is \<open>null\<close>.\<close>

definition parse_ipapi :: "jsval \<Rightarrow> IPInfo option" where
  "parse_ipapi data =
     (case get_prop data ''ip'' of
        None \<Rightarrow> None
      | Some ipv \<Rightarrow> Some \<lparr>
          ip = js_or ipv Unknown,
          city = js_or (get_prop_opt data ''city'') Unknown,
          country = js_or (get_prop_opt data ''country_name'') Unknown,
          region = js_or (get_prop_opt data ''region'') Unknown,
          isp = js_or (get_prop_opt data ''org'') Unknown,
          timezone = js_or (get_prop_opt data ''timezone'') Unknown,
          latitude = js_or (get_prop_opt data ''latitude'') (JNum 0),
          longitude = js_or (get_prop_opt data ''longitude'') (JNum 0) \<rparr>)"

definition parse_freeipapi :: "jsval \<Rightarrow> IPInfo option" where
  "parse_freeipapi data =
     (case get_prop data ''ipAddress'' of
        None \<Rightarrow> None
      | Some ipv \<Rightarrow> Some \<lparr>
          ip = js_or ipv Unknown,
          city = js_or (get_prop_opt data ''cityName'') Unknown,
          country = js_or (get_prop_opt data ''countryName'') Unknown,
          region = js_or (get_prop_opt data ''regionName'') Unknown,
          isp = (if truthy (get_prop_opt data ''isProxy'')
                 then JStr ''Proxy/VPN Detected'' else Unknown),
          timezone = js_or (get_prop_opt data ''timeZone'') Unknown,
          latitude = js_or (get_prop_opt data ''latitude'') (JNum 0),
          longitude = js_or (get_prop_opt data ''longitude'') (JNum 0) \<rparr>)"

definition parse_ipwho :: "jsval \<Rightarrow> IPInfo option" where
  "parse_ipwho data =
     (case get_prop data ''ip'' of
        None \<Rightarrow> None
      | Some ipv \<Rightarrow> Some \<lparr>
          ip = js_or ipv Unknown,
          city = js_or (get_prop_opt data ''city'') Unknown,
          country = js_or (get_prop_opt data ''country'') Unknown,
          region = js_or (get_prop_opt data ''region'') Unknown,
          isp = js_or (get_prop_opt (get_prop_opt data ''connection'') ''isp'') Unknown,
          timezone = js_or (get_prop_opt (get_prop_opt data ''timezone'') ''id'') Unknown,
          latitude = js_or (get_prop_opt data ''latitude'') (JNum 0),
          longitude = js_or (get_prop_opt data ''longitude'') (JNum 0) \<rparr>)"

record api =
  url :: string
  parse :: "jsval \<Rightarrow> IPInfo option"

definition apis :: "api list" where
  "apis =
     [ \<lparr> url = ''https://ipapi.co/json/'', parse = parse_ipapi \<rparr>,
       \<lparr> url = ''https://freeipapi.com/api/json'', parse = parse_freeipapi \<rparr>,
       \<lparr> url = ''https://ipwho.is/'', parse = parse_ipwho \<rparr> ]"

text \<open>
  What one \<open>fetch\<close> does: it throws, or it answers with \<open>ok\<close> false, or it answers with
  \<open>ok\<close> true and a body that \<open>json()\<close> reads (\<open>Some\<close>) or rejects (\<open>None\<close>). The
  environment gives the outcome for each address.
\<close>

datatype response = FetchThrows | RespNotOk | RespOk "jsval option"

type_synonym net = "string \<Rightarrow> response"

text \<open>The test \<open>result.ip && result.ip !== 'Unknown'\<close>.\<close>

definition ip_valid :: "IPInfo \<Rightarrow> bool" where
  "ip_valid result = (truthy (ip result) \<and> ip result \<noteq> JStr ''Unknown'')"

text \<open>
  One pass of the loop body. \<open>Some\<close> is the \<open>return result\<close>; \<open>None\<close> is every way
  of reaching the next provider: the \<open>continue\<close> of the handler (a throwing fetch, a
  rejected \<open>json()\<close>, a mapper that raised) and the fall through (not ok, or an ip that
  fails the test).
\<close>

definition try_api :: "net \<Rightarrow> api \<Rightarrow> IPInfo option" where
  "try_api env a =
     (case env (url a) of
        FetchThrows \<Rightarrow> None
      | RespNotOk \<Rightarrow> None
      | RespOk None \<Rightarrow> None
      | RespOk (Some data) \<Rightarrow>
          (case parse a data of
             None \<Rightarrow> None
           | Some result \<Rightarrow> if ip_valid result then Some result else None))"

text \<open>
  The loop over the providers. The first component of the result is the list of the
  addresses fetched, in the order of the requests.
\<close>

fun getIPInfo_loop :: "net \<Rightarrow> api list \<Rightarrow> string list \<times> IPInfo option" where
  "getIPInfo_loop env [] = ([], None)"
| "getIPInfo_loop env (a # rest) =
     (case try_api env a of
        Some result \<Rightarrow> ([url a], Some result)
      | None \<Rightarrow> (case getIPInfo_loop env rest of (fetched, r) \<Rightarrow> (url a # fetched, r)))"

definition getIPInfo :: "net \<Rightarrow> string list \<times> IPInfo option" where
  "getIPInfo env = getIPInfo_loop env apis"

subsection \<open>The older getIPInfo (two providers, nested handlers)\<close>

text \<open>
  The mappers of the older version read the body untyped; the second provider is
  \<open>ip-api.com\<close>, with its own field names.
\<close>

definition parse_ipapi_com :: "jsval \<Rightarrow> IPInfo option" where
  "parse_ipapi_com data =
     (case get_prop data ''query'' of
        None \<Rightarrow> None
      | Some ipv \<Rightarrow> Some \<lparr>
          ip = js_or ipv Unknown,
          city = js_or (get_prop_opt data ''city'') Unknown,
          country = js_or (get_prop_opt data ''country'') Unknown,
          region = js_or (get_prop_opt data ''regionName'') Unknown,
          isp = js_or (get_prop_opt data ''isp'') Unknown,
          timezone = js_or (get_prop_opt data ''timezone'') Unknown,
          latitude = js_or (get_prop_opt data ''lat'') (JNum 0),
          longitude = js_or (get_prop_opt data ''lon'') (JNum 0) \<rparr>)"

text \<open>
  The fallback of the older version, the body of its outer handler: a second request;
  when it throws (or its body cannot be read) the inner handler returns \<open>null\<close>; when it
  is not ok, control leaves both handlers and reaches the final \<open>return null\<close>.
\<close>

definition old_fallback :: "net \<Rightarrow> IPInfo option" where
  "old_fallback env =
     (case env ''http://ip-api.com/json'' of
        FetchThrows \<Rightarrow> None
      | RespNotOk \<Rightarrow> None
      | RespOk None \<Rightarrow> None
      | RespOk (Some data) \<Rightarrow> parse_ipapi_com data)"

text \<open>
  The older version: the fallback runs only when the first request (or reading its body)
  throws; a first answer that is not ok goes straight to \<open>return null\<close>, and an ok answer
  is returned whatever its ip field holds.
\<close>

definition old_getIPInfo :: "net \<Rightarrow> IPInfo option" where
  "old_getIPInfo env =
     (case env ''https://freeipapi.com/api/json'' of
        FetchThrows \<Rightarrow> old_fallback env
      | RespNotOk \<Rightarrow> None
      | RespOk None \<Rightarrow> old_fallback env
      | RespOk (Some data) \<Rightarrow>
          (case parse_freeipapi data of
             None \<Rightarrow> old_fallback env
           | Some result \<Rightarrow> Some result))"

subsection \<open>Example environments\<close>

text \<open>A well-formed body of the third provider, and the record its mapper gives.\<close>

definition ipwho_body :: jsval where
  "ipwho_body = JObj
     [(''ip'', JStr ''203.0.113.7''), (''success'', JBool True),
      (''city'', JStr ''Oslo''), (''region'', JStr ''Oslo County''),
      (''country'', JStr ''Norway''),
      (''latitude'', JNum 59.9), (''longitude'', JNum 10.7),
      (''connection'', JObj [(''asn'', JNum 64500), (''isp'', JStr ''Example Net'')]),
      (''timezone'', JObj [(''id'', JStr ''Europe/Oslo''), (''utc'', JStr ''+01:00'')])]"

definition ipwho_record :: IPInfo where
  "ipwho_record = \<lparr>
     ip = JStr ''203.0.113.7'', city = JStr ''Oslo'', country = JStr ''Norway'',
     region = JStr ''Oslo County'', isp = JStr ''Example Net'',
     timezone = JStr ''Europe/Oslo'', latitude = JNum 59.9, longitude = JNum 10.7 \<rparr>"

text \<open>The first two providers throw; the third answers with the body above.\<close>

definition net_third_only :: net where
  "net_third_only u = (if u = ''https://ipwho.is/'' then RespOk (Some ipwho_body) else FetchThrows)"

text \<open>Every request throws.\<close>

definition net_all_throw :: net where
  "net_all_throw u = FetchThrows"

text \<open>Every request is answered ok with the empty object \<open>{}\<close>.\<close>

definition net_all_empty :: net where
  "net_all_empty u = RespOk (Some (JObj []))"

definition unknown_record :: IPInfo where
  "unknown_record = \<lparr>
     ip = Unknown, city = Unknown, country = Unknown, region = Unknown, isp = Unknown,
     timezone = Unknown, latitude = JNum 0, longitude = JNum 0 \<rparr>"

text \<open>The first provider is not ok; the second answers with an address.\<close>

definition freeipapi_body :: jsval where
  "freeipapi_body = JObj
     [(''ipAddress'', JStr ''198.51.100.4''), (''cityName'', JStr ''Lyon''),
      (''countryName'', JStr ''France''), (''isProxy'', JBool False)]"

definition net_second_only :: net where
  "net_second_only u =
     (if u = ''https://freeipapi.com/api/json'' then RespOk (Some freeipapi_body)
      else RespNotOk)"

section \<open>The WebRTC probe (getWebRTCInfo, privacy.ts lines 173-232)\<close>

record WebRTCInfo =
  localIPs :: "string list"
  publicIP :: "string option"
  leaking :: bool

subsection \<open>The pattern \<open>/(\d{1,3}\.){3}\d{1,3}/\<close>\<close>

definition is_digit :: "char \<Rightarrow> bool" where
  "is_digit c = (c \<in> set ''0123456789'')"

text \<open>\<open>k\<close> digits at the head of the text: what they are, and what follows.\<close>

definition take_digits :: "nat \<Rightarrow> string \<Rightarrow> (string \<times> string) option" where
  "take_digits k s =
     (if k \<le> length s \<and> list_all is_digit (take k s) then Some (take k s, drop k s) else None)"

text \<open>
  \<open>\d{1,3}\<close> is greedy: the matcher tries three digits, then two, then one. The
  alternatives are listed in that order, so that the head of a list of matches is the
  match a backtracking matcher finds first.
\<close>

definition digits13 :: "string \<Rightarrow> (string \<times> string) list" where
  "digits13 s = List.map_filter (\<lambda>k. take_digits k s) [3, 2, 1]"

definition dot :: "string \<Rightarrow> string list" where
  "dot s = (case s of [] \<Rightarrow> [] | c # r \<Rightarrow> if c = CHR ''.'' then [r] else [])"

text \<open>Every match of the whole pattern that starts at the head of the text.\<close>

definition match_here :: "string \<Rightarrow> string list" where
  "match_here s =
     [a @ ''.'' @ b @ ''.'' @ c @ ''.'' @ d.
        (a, r1) \<leftarrow> digits13 s, r2 \<leftarrow> dot r1,
        (b, r3) \<leftarrow> digits13 r2, r4 \<leftarrow> dot r3,
        (c, r5) \<leftarrow> digits13 r4, r6 \<leftarrow> dot r5,
        (d, r7) \<leftarrow> digits13 r6]"

text \<open>\<open>candidate.match(...)\<close>: the leftmost match, \<open>None\<close> for \<open>null\<close>; \<open>ipMatch[0]\<close>.\<close>

fun ip_match :: "string \<Rightarrow> string option" where
  "ip_match [] = (case match_here [] of [] \<Rightarrow> None | m # ms \<Rightarrow> Some m)"
| "ip_match (x # xs) =
     (case match_here (x # xs) of [] \<Rightarrow> ip_match xs | m # ms \<Rightarrow> Some m)"

subsection \<open>Gathering the candidates\<close>

text \<open>
  \<open>Set.prototype.add\<close> on a set that keeps insertion order: \<open>Array.from\<close> lists the
  members in the order they were first added.
\<close>

definition set_add :: "string list \<Rightarrow> string \<Rightarrow> string list" where
  "set_add ips x = (if x \<in> set ips then ips else ips @ [x])"

text \<open>An \<open>icecandidate\<close> event: a candidate line, or the null candidate that ends the gathering.\<close>

datatype ice_event = Candidate string | EndOfCandidates

text \<open>
  What the probe meets: whether \<open>window.RTCPeerConnection\<close> exists; whether the set-up
  (the constructor, \<open>createDataChannel\<close>, \<open>createOffer\<close>, \<open>setLocalDescription\<close>)
  throws; and the events delivered to \<open>onicecandidate\<close>, in order, before the timer of
  3000 ms fires. A closed connection delivers no further event.
\<close>

record rtc_env =
  hasRTCPeerConnection :: bool
  setupThrows :: bool
  iceEvents :: "ice_event list"

text \<open>
  Both ways of finishing (the timer, the null candidate) do the same:
  \<^verbatim>\<open>result.localIPs = Array.from(ips); result.leaking = ips.size > 0; resolve(result)\<close>.
\<close>

definition finish :: "string list \<Rightarrow> string option \<Rightarrow> WebRTCInfo" where
  "finish ips pub = \<lparr> localIPs = ips, publicIP = pub, leaking = (0 < length ips) \<rparr>"

text \<open>
  The handler, run over the events; \<open>ips\<close> is the set, \<open>pub\<close> the field
  \<open>result.publicIP\<close>. When the events run out the timer fires.
\<close>

fun gather :: "ice_event list \<Rightarrow> string list \<Rightarrow> string option \<Rightarrow> WebRTCInfo" where
  "gather [] ips pub = finish ips pub"
| "gather (EndOfCandidates # evs) ips pub = finish ips pub"
| "gather (Candidate candidate # evs) ips pub =
     (case ip_match candidate of
        None \<Rightarrow> gather evs ips pub
      | Some ipa \<Rightarrow>
          if prefix ''192.168.'' ipa \<or> prefix ''10.'' ipa \<or> prefix ''172.'' ipa
          then gather evs (set_add ips ipa) pub
          else if \<not> prefix ''0.'' ipa
          then gather evs (set_add ips ipa) (Some ipa)
          else gather evs ips pub)"

definition getWebRTCInfo :: "rtc_env \<Rightarrow> WebRTCInfo" where
  "getWebRTCInfo env =
     (let result = \<lparr> localIPs = [], publicIP = None, leaking = False \<rparr>
      in if \<not> hasRTCPeerConnection env then result
         else if setupThrows env then result
         else gather (iceEvents env) [] None)"

subsection \<open>Example environments\<close>

definition rtc_absent :: rtc_env where
  "rtc_absent = \<lparr> hasRTCPeerConnection = False, setupThrows = False, iceEvents = [] \<rparr>"

text \<open>A host candidate, a server-reflexive candidate, the host candidate again, the end.\<close>

definition rtc_leaky :: rtc_env where
  "rtc_leaky = \<lparr> hasRTCPeerConnection = True, setupThrows = False,
     iceEvents =
       [Candidate ''candidate:1 1 udp 2122 192.168.1.7 5000 typ host'',
        Candidate ''candidate:2 1 udp 1686 203.0.113.9 5001 typ srflx'',
        Candidate ''candidate:3 1 tcp 1518 192.168.1.7 9 typ host'',
        EndOfCandidates] \<rparr>"

section \<open>The ad-blocker probe (detectAdBlocker, privacy.ts lines 279-310)\<close>

text \<open>
  What the probe meets in the page: whether appending the bait to \<open>document.body\<close>
  raises; what the bait shows after the delay (\<open>offsetHeight\<close>, whether
  \<open>offsetParent\<close> is null, the computed \<open>display\<close>); whether \<open>removeChild\<close> raises;
  and whether the fetch of the ad script throws.
\<close>

record ad_env =
  appendThrows :: bool
  offsetHeight :: int
  offsetParentNull :: bool
  display :: string
  removeThrows :: bool
  fetchThrows :: bool

text \<open>
  The steps of one call, in the order they happen. \<open>AwaitTimeout\<close>, \<open>FetchResolved\<close>
  and \<open>FetchThrew\<close> are the points where the function awaits a pending promise and so
  yields to the event loop.
\<close>

datatype ad_step =
    AppendBait
  | AwaitTimeout nat
  | InspectBait
  | RemoveBait
  | FetchResolved
  | FetchThrew

fun is_suspension :: "ad_step \<Rightarrow> bool" where
  "is_suspension (AwaitTimeout ms) = True"
| "is_suspension FetchResolved = True"
| "is_suspension FetchThrew = True"
| "is_suspension s = False"

text \<open>
  \<^verbatim>\<open>bait.offsetHeight === 0 || bait.offsetParent === null
    || getComputedStyle(bait).display === 'none'\<close>
\<close>

definition blocked :: "ad_env \<Rightarrow> bool" where
  "blocked env = (offsetHeight env = 0 \<or> offsetParentNull env \<or> display env = ''none'')"

text \<open>
  The function: the steps taken, and the value returned. An exception of the outer
  \<open>try\<close> block gives \<open>false\<close>; a throwing fetch gives \<open>true\<close>.
\<close>

definition detectAdBlocker :: "ad_env \<Rightarrow> ad_step list \<times> bool" where
  "detectAdBlocker env =
     (if appendThrows env then ([], False)
      else if removeThrows env then ([AppendBait, AwaitTimeout 100, InspectBait], False)
      else if fetchThrows env
      then ([AppendBait, AwaitTimeout 100, InspectBait, RemoveBait, FetchThrew], True)
      else ([AppendBait, AwaitTimeout 100, InspectBait, RemoveBait, FetchResolved],
            blocked env))"

text \<open>
  The steps strictly between the insertion of the bait and its removal: \<open>None\<close> for a
  call that does not insert the bait, or does not remove it afterwards.
\<close>

definition while_bait_inserted :: "ad_step list \<Rightarrow> ad_step list option" where
  "while_bait_inserted steps =
     (let after = drop 1 (dropWhile (\<lambda>s. s \<noteq> AppendBait) steps)
      in if AppendBait \<in> set steps \<and> RemoveBait \<in> set after
         then Some (takeWhile (\<lambda>s. s \<noteq> RemoveBait) after)
         else None)"

subsection \<open>Example environments\<close>

text \<open>A page without ad blocker: the bait is laid out, the fetch resolves.\<close>

definition ad_plain :: ad_env where
  "ad_plain = \<lparr> appendThrows = False, offsetHeight = 1, offsetParentNull = False,
     display = ''block'', removeThrows = False, fetchThrows = False \<rparr>"

text \<open>A blocker that lets the bait be but refuses the request.\<close>

definition ad_net_blocked :: ad_env where
  "ad_net_blocked = \<lparr> appendThrows = False, offsetHeight = 1, offsetParentNull = False,
     display = ''block'', removeThrows = False, fetchThrows = True \<rparr>"

text \<open>A blocker that hides the bait but lets the request pass.\<close>

definition ad_bait_hidden :: ad_env where
  "ad_bait_hidden = \<lparr> appendThrows = False, offsetHeight = 0, offsetParentNull = True,
     display = ''none'', removeThrows = False, fetchThrows = False \<rparr>"

text \<open>The bait is no longer a child of the body when it is to be removed.\<close>

definition ad_bait_gone :: ad_env where
  "ad_bait_gone = \<lparr> appendThrows = False, offsetHeight = 0, offsetParentNull = True,
     display = ''none'', removeThrows = True, fetchThrows = False \<rparr>"

section \<open>The canvas probe (getCanvasFingerprint, privacy.ts lines 104-129)\<close>

text \<open>
  What the function does to the canvas it creates: the assignments and drawing calls, in
  the order of the source.
\<close>

datatype draw_op =
    SetWidth nat
  | SetHeight nat
  | SetTextBaseline string
  | SetFont string
  | SetFillStyle string
  | FillRect int int int int
  | FillText string int int

definition canvas_ops :: "draw_op list" where
  "canvas_ops =
     [SetWidth 200, SetHeight 50,
      SetTextBaseline ''top'', SetFont ''14px Arial'',
      SetFillStyle ''#f60'', FillRect 125 1 62 20,
      SetFillStyle ''#069'', FillText ''WhatDoTheyKnow'' 2 15,
      SetFillStyle ''rgba(102, 204, 0, 0.7)'', FillText ''Canvas FP'' 4 35]"

text \<open>
  The rendering environment: whether creating the canvas or asking for its context
  raises; whether \<open>getContext('2d')\<close> gives a context; and, for a sequence of
  operations on a fresh canvas, the text \<open>toDataURL\<close> then returns, or \<open>None\<close> when
  one of the calls or \<open>toDataURL\<close> itself raises.
\<close>

record canvas_env =
  createThrows :: bool
  hasContext2d :: bool
  render :: "draw_op list \<Rightarrow> jsstring option"

text \<open>\<open>s.substring(0, n)\<close> on a text: its first \<open>n\<close> characters, all of it if shorter.\<close>

definition substring0 :: "nat \<Rightarrow> string \<Rightarrow> string" where
  "substring0 n s = take n s"

text \<open>
  Every call creates its own canvas, so the drawing starts from a fresh one. Each
  exception inside the \<open>try\<close> block ends in the handler's \<open>return 'Not available'\<close>.
\<close>

definition getCanvasFingerprint :: "canvas_env \<Rightarrow> string" where
  "getCanvasFingerprint env =
     (if createThrows env then ''Not available''
      else if \<not> hasContext2d env then ''Not available''
      else (case render env canvas_ops of
              None \<Rightarrow> ''Not available''
            | Some dataUrl \<Rightarrow> substring0 16 (hashString dataUrl)))"

subsection \<open>Example environments\<close>

text \<open>The encoded image of the examples is the text \<open>data:,\<close>.\<close>

definition data_url :: jsstring where
  "data_url = [100, 97, 116, 97, 58, 44]"

text \<open>No 2D context.\<close>

definition canvas_none :: canvas_env where
  "canvas_none = \<lparr> createThrows = False, hasContext2d = False,
     render = (\<lambda>ops. Some data_url) \<rparr>"

text \<open>Asking for the context raises.\<close>

definition canvas_raises :: canvas_env where
  "canvas_raises = \<lparr> createThrows = True, hasContext2d = True,
     render = (\<lambda>ops. Some data_url) \<rparr>"

text \<open>The context is there, but \<open>toDataURL\<close> raises.\<close>

definition canvas_tainted :: canvas_env where
  "canvas_tainted = \<lparr> createThrows = False, hasContext2d = True,
     render = (\<lambda>ops. None) \<rparr>"

text \<open>Two environments that render the drawing of the probe alike and differ elsewhere.\<close>

definition canvas_blank :: canvas_env where
  "canvas_blank = \<lparr> createThrows = False, hasContext2d = True,
     render = (\<lambda>ops. Some data_url) \<rparr>"

definition canvas_blank2 :: canvas_env where
  "canvas_blank2 = \<lparr> createThrows = False, hasContext2d = True,
     render = (\<lambda>ops. if ops = canvas_ops then Some data_url else Some []) \<rparr>"

section \<open>The font probe (detectFonts, privacy.ts lines 235-276)\<close>

definition baseFonts :: "string list" where
  "baseFonts = [''monospace'', ''sans-serif'', ''serif'']"

definition testFonts :: "string list" where
  "testFonts =
     [''Arial'', ''Arial Black'', ''Comic Sans MS'', ''Courier New'', ''Georgia'',
      ''Impact'', ''Lucida Console'', ''Lucida Sans Unicode'', ''Palatino Linotype'',
      ''Tahoma'', ''Times New Roman'', ''Trebuchet MS'', ''Verdana'', ''MS Gothic'',
      ''MS PGothic'', ''MS UI Gothic'', ''Meiryo'', ''Yu Gothic'', ''Segoe UI'',
      ''Roboto'', ''Open Sans'', ''Helvetica'', ''Helvetica Neue'', ''Monaco'',
      ''Consolas'', ''Menlo'', ''Ubuntu'', ''Cantarell'', ''Fira Sans'']"

definition testSize :: string where
  "testSize = ''72px''"

text \<open>
  The drawing environment: whether \<open>getContext('2d')\<close> gives a context, and the width
  \<open>measureText(testString)\<close> reports once \<open>ctx.font\<close> has been set to a given text.
  Widths are only compared with each other.
\<close>

record font_env =
  hasCtx :: bool
  measureWidth :: "string \<Rightarrow> real"

text \<open>\<^verbatim>\<open>ctx.font = `${testSize} ${font}`; return ctx.measureText(testString).width\<close>\<close>

definition getWidth :: "font_env \<Rightarrow> string \<Rightarrow> real" where
  "getWidth env font = measureWidth env (testSize @ '' '' @ font)"

text \<open>The font in quotes before a base family: \<^verbatim>\<open>`'${font}', ${baseFonts[i]}`\<close>.\<close>

definition layered :: "string \<Rightarrow> string \<Rightarrow> string" where
  "layered font base = [CHR 0x27] @ font @ [CHR 0x27] @ '', '' @ base"

text \<open>
  The inner loop over the base families, from index \<open>i\<close> on: \<open>isDetected\<close> becomes
  true, and the loop is left, at the first width that differs from the base width.
\<close>

function inner_loop :: "font_env \<Rightarrow> real list \<Rightarrow> string \<Rightarrow> nat \<Rightarrow> bool" where
  "inner_loop env baseWidths font i =
     (if i < length baseFonts
      then (let width = getWidth env (layered font (baseFonts ! i))
            in if width \<noteq> baseWidths ! i then True
               else inner_loop env baseWidths font (i + 1))
      else False)"
  by pat_completeness auto
termination
  by (relation "measure (\<lambda>(env, baseWidths, font, i). length baseFonts - i)") auto

declare inner_loop.simps [simp del]

text \<open>The outer loop over the candidates; \<open>detected.push(font)\<close> appends.\<close>

fun outer_loop :: "font_env \<Rightarrow> real list \<Rightarrow> string list \<Rightarrow> string list \<Rightarrow> string list" where
  "outer_loop env baseWidths [] detected = detected"
| "outer_loop env baseWidths (font # fonts) detected =
     (if inner_loop env baseWidths font 0
      then outer_loop env baseWidths fonts (detected @ [font])
      else outer_loop env baseWidths fonts detected)"

definition detectFonts :: "font_env \<Rightarrow> string list" where
  "detectFonts env =
     (let detected = []
      in if \<not> hasCtx env then detected
         else (let baseWidths = map (getWidth env) baseFonts
               in outer_loop env baseWidths testFonts detected))"

subsection \<open>Example environments\<close>

definition fonts_no_ctx :: font_env where
  "fonts_no_ctx = \<lparr> hasCtx = False, measureWidth = (\<lambda>f. 0) \<rparr>"

text \<open>
  A machine on which Georgia and Ubuntu are installed: a text set in either is 500 wide,
  under the base families alone it is 780, 640 and 610 wide.
\<close>

definition fonts_two :: font_env where
  "fonts_two = \<lparr> hasCtx = True,
     measureWidth = (\<lambda>f.
       if prefix (''72px '' @ [CHR 0x27] @ ''Georgia'' @ [CHR 0x27]) f
          \<or> prefix (''72px '' @ [CHR 0x27] @ ''Ubuntu'' @ [CHR 0x27]) f then 500
       else if suffix ''monospace'' f then 780
       else if suffix ''sans-serif'' f then 640
       else 610) \<rparr>"

section \<open>The latency probe (runSpeedTests, privacy.ts lines 443-514)\<close>

datatype status = Pending | Testing | Done | Error

record SpeedTestResult =
  server :: string
  location :: string
  latency :: "int option"
  status :: status

text \<open>An entry of the fixed list of servers: its address, its name, its location.\<close>

record target =
  target_url :: string
  target_server :: string
  target_location :: string

definition servers :: "target list" where
  "servers =
     [ \<lparr> target_url = ''https://www.google.com/favicon.ico'',
         target_server = ''Google'', target_location = ''Global CDN'' \<rparr>,
       \<lparr> target_url = ''https://www.cloudflare.com/favicon.ico'',
         target_server = ''Cloudflare'', target_location = ''Global CDN'' \<rparr>,
       \<lparr> target_url = ''https://aws.amazon.com/favicon.ico'',
         target_server = ''Amazon AWS'', target_location = ''US East'' \<rparr>,
       \<lparr> target_url = ''https://azure.microsoft.com/favicon.ico'',
         target_server = ''Microsoft Azure'', target_location = ''Global'' \<rparr>,
       \<lparr> target_url = ''https://github.com/favicon.ico'',
         target_server = ''GitHub'', target_location = ''Global CDN'' \<rparr> ]"

text \<open>
  The network: what \<open>testLatency\<close> returns for the \<open>j\<close>-th request to server \<open>i\<close>,
  the rounded number of milliseconds, or \<open>null\<close> (\<open>None\<close>) when the fetch throws.
\<close>

type_synonym lat_env = "nat \<Rightarrow> nat \<Rightarrow> int option"

text \<open>The loop \<open>for (let j = 0; j < 3; j++)\<close>, over the values of \<open>j\<close> still to come.\<close>

fun sample_loop :: "lat_env \<Rightarrow> nat \<Rightarrow> nat list \<Rightarrow> int list \<Rightarrow> int list" where
  "sample_loop env i [] latencies = latencies"
| "sample_loop env i (j # js) latencies =
     (case env i j of
        None \<Rightarrow> sample_loop env i js latencies
      | Some l \<Rightarrow> sample_loop env i js (latencies @ [l]))"

text \<open>
  The state of the outer loop: the array \<open>results\<close>, and the copies of it handed to
  \<open>onUpdate\<close> so far.
\<close>

type_synonym speed_state = "SpeedTestResult list \<times> SpeedTestResult list list"

text \<open>
  One pass of the outer loop, for server \<open>i\<close>. \<open>sort((a, b) => a - b)\<close> orders the
  numbers ascending.
\<close>

definition test_server :: "lat_env \<Rightarrow> nat \<Rightarrow> speed_state \<Rightarrow> speed_state" where
  "test_server env i st =
     (let results1 = (fst st)[i := (fst st ! i)\<lparr>status := Testing\<rparr>];
          updates1 = snd st @ [results1];
          latencies = sample_loop env i [0..<3] [];
          results2 =
            (if 0 < length latencies
             then (let sorted = sort latencies
                   in results1[i := (results1 ! i)
                        \<lparr>latency := Some (sorted ! (length sorted div 2)), status := Done\<rparr>])
             else results1[i := (results1 ! i)\<lparr>status := Error\<rparr>])
      in (results2, updates1 @ [results2]))"

function speed_loop :: "lat_env \<Rightarrow> nat \<Rightarrow> speed_state \<Rightarrow> speed_state" where
  "speed_loop env i st =
     (if i < length servers then speed_loop env (i + 1) (test_server env i st) else st)"
  by pat_completeness auto
termination
  by (relation "measure (\<lambda>(env, i, st). length servers - i)") auto

declare speed_loop.simps [simp del]

text \<open>The function returns \<open>results\<close>; the second component lists the calls of \<open>onUpdate\<close>.\<close>

definition runSpeedTests :: "lat_env \<Rightarrow> speed_state" where
  "runSpeedTests env =
     (let results = map (\<lambda>s. \<lparr> server = target_server s, location = target_location s,
                               latency = None, status = Pending \<rparr>) servers
      in speed_loop env 0 (results, [results]))"

text \<open>The samples of server \<open>i\<close> that succeeded, in the order they were taken.\<close>

definition successes :: "lat_env \<Rightarrow> nat \<Rightarrow> int list" where
  "successes env i = List.map_filter (env i) [0..<3]"

text \<open>
  The median as it is usually defined: the middle value of the ordered samples when their
  number is odd, the mean of the two middle values when it is even.
\<close>

definition median :: "int list \<Rightarrow> real" where
  "median xs =
     (let s = sort xs; n = length s
      in if odd n then real_of_int (s ! (n div 2))
         else (real_of_int (s ! (n div 2 - 1)) + real_of_int (s ! (n div 2))) / 2)"

text \<open>
  The value the code reads: \<open>latencies[Math.floor(latencies.length / 2)]\<close>, after the
  sort.
\<close>

definition middle_entry :: "int list \<Rightarrow> int" where
  "middle_entry xs = sort xs ! (length xs div 2)"

text \<open>What a pass of the outer loop for server \<open>i\<close> leaves in entry \<open>i\<close>.\<close>

definition settled :: "lat_env \<Rightarrow> nat \<Rightarrow> SpeedTestResult \<Rightarrow> bool" where
  "settled env i r =
     (if successes env i \<noteq> []
      then status r = Done \<and> latency r = Some (middle_entry (successes env i))
      else status r = Error)"

subsection \<open>Example environment\<close>

text \<open>
  The first server answers after 10 ms and after 20 ms and its third request fails; the
  second answers three times; the requests to the other servers all fail.
\<close>

definition lat_two :: lat_env where
  "lat_two i j =
     (if i = 0 then (if j = 0 then Some 10 else if j = 1 then Some 20 else None)
      else if i = 1 then (if j = 0 then Some 31 else if j = 1 then Some 12 else Some 25)
      else None)"

section \<open>Properties of the hash primitive\<close>

lemma to_int32_range: "- (2 ^ 31) \<le> to_int32 x \<and> to_int32 x < 2 ^ 31"
  unfolding to_int32_def
  using pos_mod_sign [of "2 ^ 32" "x + 2 ^ 31"] pos_mod_bound [of "2 ^ 32" "x + 2 ^ 31"]
  by simp

lemma to_int32_cong: "x mod 2 ^ 32 = y mod 2 ^ 32 \<Longrightarrow> to_int32 x = to_int32 y"
  unfolding to_int32_def by (metis mod_add_left_eq)

lemma to_int32_mod: "to_int32 x mod 2 ^ 32 = x mod 2 ^ 32"
proof -
  have "to_int32 x mod 2 ^ 32 = ((x + 2 ^ 31) mod 2 ^ 32 - 2 ^ 31) mod 2 ^ 32"
    by (simp add: to_int32_def)
  also have "\<dots> = ((x + 2 ^ 31) - 2 ^ 31) mod 2 ^ 32"
    by (rule mod_diff_left_eq)
  finally show ?thesis by simp
qed

lemma hash_step_spec: "hash_step h c = spec_hash_step h c"
proof -
  let ?a = "js_shl h 5 - h + uint c"
  have "to_int32 ?a AND to_int32 ?a = to_int32 ?a" by simp
  moreover have "to_int32 ?a = to_int32 (h * 31 + uint c)"
  proof (rule to_int32_cong)
    have "js_shl h 5 mod 2 ^ 32 = (to_int32 h * 32) mod 2 ^ 32"
      using to_int32_mod [of "to_int32 h * 32"] by (simp add: js_shl_def)
    also have "\<dots> = (to_int32 h mod 2 ^ 32 * 32) mod 2 ^ 32"
      by (rule mod_mult_left_eq [symmetric])
    also have "\<dots> = (h mod 2 ^ 32 * 32) mod 2 ^ 32"
      by (simp only: to_int32_mod)
    also have "\<dots> = (h * 32) mod 2 ^ 32"
      by (rule mod_mult_left_eq)
    finally have "js_shl h 5 mod 2 ^ 32 = (h * 32) mod 2 ^ 32" .
    then have "(js_shl h 5 + (uint c - h)) mod 2 ^ 32 = (h * 32 + (uint c - h)) mod 2 ^ 32"
      by (rule mod_add_cong) simp
    then show "?a mod 2 ^ 32 = (h * 31 + uint c) mod 2 ^ 32"
      by (simp add: algebra_simps)
  qed
  ultimately show ?thesis
    by (simp add: hash_step_def spec_hash_step_def js_and_def Let_def)
qed

lemma hash_loop_spec: "hash_loop h s = foldl spec_hash_step h s"
  by (induction s arbitrary: h) (simp_all add: hash_step_spec)

lemma hash_loop_range: "- (2 ^ 31) \<le> h \<Longrightarrow> h < 2 ^ 31 \<Longrightarrow>
    - (2 ^ 31) \<le> hash_loop h s \<and> hash_loop h s < 2 ^ 31"
proof (induction s arbitrary: h)
  case Nil
  then show ?case by simp
next
  case (Cons c cs)
  have "- (2 ^ 31) \<le> hash_step h c \<and> hash_step h c < 2 ^ 31"
    unfolding hash_step_spec spec_hash_step_def by (rule to_int32_range)
  then show ?case using Cons.IH by simp
qed

lemma hexDigit_in: "d < 16 \<Longrightarrow> hexDigit d \<in> set ''0123456789abcdef''"
  unfolding hexDigit_def by (rule nth_mem) simp

lemma toHex_digits: "set (toHex n) \<subseteq> set ''0123456789abcdef''"
proof (induction n rule: toHex.induct)
  case (1 n)
  show ?case
  proof (cases "n < 16")
    case True
    then show ?thesis
      using hexDigit_in [of n] by (subst toHex.simps) simp
  next
    case False
    have "n mod 16 < 16" by simp
    then have "hexDigit (n mod 16) \<in> set ''0123456789abcdef''" by (rule hexDigit_in)
    then show ?thesis
      using False 1 by (subst toHex.simps) simp
  qed
qed

lemma toHex_length: "0 < k \<Longrightarrow> n < 16 ^ k \<Longrightarrow> length (toHex n) \<le> k"
proof (induction n arbitrary: k rule: toHex.induct)
  case (1 n)
  show ?case
  proof (cases "n < 16")
    case True
    then show ?thesis using "1.prems" by (subst toHex.simps) simp
  next
    case False
    then obtain j where k: "k = Suc j"
      using "1.prems" by (cases k) auto
    with False "1.prems" have j: "0 < j" by (cases j) auto
    have "n div 16 < 16 ^ j"
      using "1.prems" k by (simp add: less_mult_imp_div_less mult.commute)
    then have "length (toHex (n div 16)) \<le> j"
      using "1.IH" [OF False j] by simp
    then show ?thesis using False k by (subst toHex.simps) simp
  qed
qed

lemma digitValue_hexDigit: "d < 16 \<Longrightarrow> digitValue (hexDigit d) = d"
proof -
  assume "d < 16"
  then have "d \<in> {0, 1, 2, 3, 4, 5, 6, 7, 8, 9, 10, 11, 12, 13, 14, 15}"
    by simp arith
  then show ?thesis
    by (auto simp: digitValue_def hexDigit_def)
qed

lemma hexValue_toHex: "hexValue (toHex n) = n"
proof (induction n rule: toHex.induct)
  case (1 n)
  show ?case
  proof (cases "n < 16")
    case True
    then show ?thesis
      by (subst toHex.simps) (simp add: hexValue_def digitValue_hexDigit)
  next
    case False
    have "hexValue (toHex (n div 16) @ [hexDigit (n mod 16)])
            = hexValue (toHex (n div 16)) * 16 + digitValue (hexDigit (n mod 16))"
      by (simp add: hexValue_def)
    also have "\<dots> = n div 16 * 16 + n mod 16"
      using 1 False by (simp add: digitValue_hexDigit)
    also have "\<dots> = n" by simp
    finally show ?thesis
      using False by (subst toHex.simps) simp
  qed
qed

text \<open>
  C1. For every string, hashString renders in lowercase hexadecimal the absolute value of
  the fold that starts at 0 and sets \<open>hash := hash * 31 + c\<close>, truncated to 32-bit signed
  two's complement, for each character code in order (read back as base 16, the result
  denotes that absolute value). The rendered number is not
  negative (the result has only hexadecimal digits, no minus sign) and is at most
  \<open>2 ^ 31\<close>; the result of the empty string is the constant \<open>0\<close>. The model is a function
  of the string alone, as the code reads nothing else, so repeated calls agree.
\<close>

theorem hashString_rolling_hash:
  "hashString s = toHex (nat \<bar>spec_hash_fold s\<bar>)
   \<and> hashString s = toString16 \<bar>spec_hash_fold s\<bar>
   \<and> int (hexValue (hashString s)) = \<bar>spec_hash_fold s\<bar>
   \<and> 0 \<le> \<bar>hash_loop 0 s\<bar> \<and> \<bar>hash_loop 0 s\<bar> \<le> 2 ^ 31
   \<and> set (hashString s) \<subseteq> set ''0123456789abcdef''
   \<and> hashString [] = ''0''"
proof -
  have eq: "hash_loop 0 s = spec_hash_fold s"
    by (simp add: hash_loop_spec spec_hash_fold_def)
  have hs: "hashString s = toHex (nat \<bar>spec_hash_fold s\<bar>)"
    by (simp add: hashString_def toString16_def eq)
  have rng: "- (2 ^ 31) \<le> hash_loop 0 s \<and> hash_loop 0 s < 2 ^ 31"
    by (rule hash_loop_range) simp_all
  have e: "hashString [] = ''0''"
    by (simp add: hashString_def toString16_def toHex.simps hexDigit_def)
  have ab: "0 \<le> \<bar>hash_loop 0 s\<bar> \<and> \<bar>hash_loop 0 s\<bar> \<le> 2 ^ 31"
    using rng by linarith
  have dg: "set (hashString s) \<subseteq> set ''0123456789abcdef''"
    unfolding hs by (rule toHex_digits)
  have ts: "hashString s = toString16 \<bar>spec_hash_fold s\<bar>"
    by (simp add: hashString_def eq)
  have hv: "int (hexValue (hashString s)) = \<bar>spec_hash_fold s\<bar>"
    unfolding hs by (simp add: hexValue_toHex)
  show ?thesis
    using hs ts hv ab dg e by blast
qed

section \<open>Properties of the geolocation probe\<close>

lemma try_api_Some_iff:
  "try_api env a = Some r \<longleftrightarrow>
     (\<exists>data. env (url a) = RespOk (Some data) \<and> parse a data = Some r
        \<and> truthy (ip r) \<and> ip r \<noteq> JStr ''Unknown'')"
  by (auto simp: try_api_def ip_valid_def split: response.splits option.splits)

lemma try_api_None_iff:
  "try_api env a = None \<longleftrightarrow>
     (env (url a) = FetchThrows \<or> env (url a) = RespNotOk \<or> env (url a) = RespOk None
      \<or> (\<exists>data. env (url a) = RespOk (Some data)
            \<and> (parse a data = None
               \<or> (\<exists>r. parse a data = Some r
                     \<and> \<not> (truthy (ip r) \<and> ip r \<noteq> JStr ''Unknown'')))))"
  by (auto simp: try_api_def ip_valid_def split: response.splits option.splits)

lemma loop_fetched_prefix: "prefix (fst (getIPInfo_loop env as)) (map url as)"
  by (induction as) (auto split: option.splits prod.splits)

lemma loop_Some:
  "getIPInfo_loop env as = (fetched, Some r) \<Longrightarrow>
     \<exists>pre a post. as = pre @ a # post \<and> fetched = map url pre @ [url a]
        \<and> (\<forall>b\<in>set pre. try_api env b = None) \<and> try_api env a = Some r"
proof (induction as arbitrary: fetched)
  case Nil
  then show ?case by simp
next
  case (Cons a rest)
  show ?case
  proof (cases "try_api env a")
    case None
    with Cons.prems obtain f' where f': "getIPInfo_loop env rest = (f', Some r)"
      and fetched: "fetched = url a # f'"
      by (auto split: prod.splits)
    from Cons.IH [OF f'] obtain pre b post where
      "rest = pre @ b # post" "f' = map url pre @ [url b]"
      "\<forall>c\<in>set pre. try_api env c = None" "try_api env b = Some r"
      by blast
    with None fetched have
      "a # rest = (a # pre) @ b # post \<and> fetched = map url (a # pre) @ [url b]
         \<and> (\<forall>c\<in>set (a # pre). try_api env c = None) \<and> try_api env b = Some r"
      by simp
    then show ?thesis by blast
  next
    case (Some r')
    with Cons.prems have
      "a # rest = [] @ a # rest \<and> fetched = map url [] @ [url a]
         \<and> (\<forall>c\<in>set []. try_api env c = None) \<and> try_api env a = Some r"
      by simp
    then show ?thesis by blast
  qed
qed

lemma loop_None_iff:
  "snd (getIPInfo_loop env as) = None \<longleftrightarrow> (\<forall>a\<in>set as. try_api env a = None)"
  by (induction as) (auto split: option.splits prod.splits)

lemma loop_None_fetched:
  "snd (getIPInfo_loop env as) = None \<Longrightarrow> fst (getIPInfo_loop env as) = map url as"
  by (induction as) (auto split: option.splits prod.splits)

text \<open>
  C2. getIPInfo requests the providers in the order of the list (the addresses fetched
  are a prefix of the list's addresses). A provider whose fetch throws or whose answer is
  not ok is passed over and the loop goes on with the rest. A record that is returned
  comes from the first provider of the list that answered ok with a body whose normalized
  ip is truthy and differs from \<open>Unknown\<close>, every provider before it having been tried
  and having failed; and where every provider fails or yields the sentinel, all of them
  are tried and the result is null.
\<close>

theorem getIPInfo_fallback_order:
  "prefix (fst (getIPInfo env)) (map url apis)
   \<and> (\<forall>a rest. env (url a) = FetchThrows \<or> env (url a) = RespNotOk \<longrightarrow>
        getIPInfo_loop env (a # rest)
          = (url a # fst (getIPInfo_loop env rest), snd (getIPInfo_loop env rest)))
   \<and> (\<forall>r. snd (getIPInfo env) = Some r \<longrightarrow>
        truthy (ip r) \<and> ip r \<noteq> JStr ''Unknown''
        \<and> (\<exists>pre a post data. apis = pre @ a # post
              \<and> fst (getIPInfo env) = map url pre @ [url a]
              \<and> (\<forall>b\<in>set pre. try_api env b = None)
              \<and> env (url a) = RespOk (Some data) \<and> parse a data = Some r))
   \<and> (snd (getIPInfo env) = None \<longleftrightarrow> (\<forall>a\<in>set apis. try_api env a = None))
   \<and> (snd (getIPInfo env) = None \<longrightarrow> fst (getIPInfo env) = map url apis)
   \<and> (\<forall>a. try_api env a = None \<longleftrightarrow>
        (env (url a) = FetchThrows \<or> env (url a) = RespNotOk \<or> env (url a) = RespOk None
         \<or> (\<exists>data. env (url a) = RespOk (Some data)
               \<and> (parse a data = None
                  \<or> (\<exists>r. parse a data = Some r
                        \<and> \<not> (truthy (ip r) \<and> ip r \<noteq> JStr ''Unknown''))))))"
proof -
  have order: "prefix (fst (getIPInfo env)) (map url apis)"
    unfolding getIPInfo_def by (rule loop_fetched_prefix)
  have skip: "\<forall>a rest. env (url a) = FetchThrows \<or> env (url a) = RespNotOk \<longrightarrow>
        getIPInfo_loop env (a # rest)
          = (url a # fst (getIPInfo_loop env rest), snd (getIPInfo_loop env rest))"
    by (auto simp: try_api_def split: prod.splits)
  have some: "\<forall>r. snd (getIPInfo env) = Some r \<longrightarrow>
        truthy (ip r) \<and> ip r \<noteq> JStr ''Unknown''
        \<and> (\<exists>pre a post data. apis = pre @ a # post
              \<and> fst (getIPInfo env) = map url pre @ [url a]
              \<and> (\<forall>b\<in>set pre. try_api env b = None)
              \<and> env (url a) = RespOk (Some data) \<and> parse a data = Some r)"
  proof (intro allI impI)
    fix r
    assume "snd (getIPInfo env) = Some r"
    then have "getIPInfo_loop env apis = (fst (getIPInfo env), Some r)"
      by (metis getIPInfo_def prod.collapse)
    from loop_Some [OF this] obtain pre a post where
      s: "apis = pre @ a # post" "fst (getIPInfo env) = map url pre @ [url a]"
         "\<forall>b\<in>set pre. try_api env b = None" and t: "try_api env a = Some r"
      by blast
    from t obtain data where
      d: "env (url a) = RespOk (Some data)" "parse a data = Some r"
         "truthy (ip r)" "ip r \<noteq> JStr ''Unknown''"
      unfolding try_api_Some_iff by blast
    from s d show "truthy (ip r) \<and> ip r \<noteq> JStr ''Unknown''
        \<and> (\<exists>pre a post data. apis = pre @ a # post
              \<and> fst (getIPInfo env) = map url pre @ [url a]
              \<and> (\<forall>b\<in>set pre. try_api env b = None)
              \<and> env (url a) = RespOk (Some data) \<and> parse a data = Some r)"
      by blast
  qed
  have none: "snd (getIPInfo env) = None \<longleftrightarrow> (\<forall>a\<in>set apis. try_api env a = None)"
    unfolding getIPInfo_def by (rule loop_None_iff)
  have all: "snd (getIPInfo env) = None \<longrightarrow> fst (getIPInfo env) = map url apis"
    unfolding getIPInfo_def using loop_None_fetched by blast
  note fails = try_api_None_iff [of env]
  from order skip some none all fails show ?thesis
    by (intro conjI allI) blast+
qed

lemmas ipinfo_eval =
  getIPInfo_def apis_def try_api_def ip_valid_def parse_ipapi_def parse_freeipapi_def
  parse_ipwho_def get_prop_opt_def js_or_def Unknown_def

theorem getIPInfo_fallback_order_witness:
  "snd (getIPInfo net_third_only) = Some ipwho_record
   \<and> fst (getIPInfo net_third_only)
       = [''https://ipapi.co/json/'', ''https://freeipapi.com/api/json'', ''https://ipwho.is/'']
   \<and> truthy (ip ipwho_record) \<and> ip ipwho_record \<noteq> JStr ''Unknown''
   \<and> snd (getIPInfo net_all_throw) = None
   \<and> fst (getIPInfo net_all_throw)
       = [''https://ipapi.co/json/'', ''https://freeipapi.com/api/json'', ''https://ipwho.is/'']"
proof -
  have r: "snd (getIPInfo net_third_only) = Some ipwho_record"
    by (simp add: ipinfo_eval net_third_only_def ipwho_body_def ipwho_record_def)
  have f: "fst (getIPInfo net_third_only)
       = [''https://ipapi.co/json/'', ''https://freeipapi.com/api/json'', ''https://ipwho.is/'']"
    by (simp add: ipinfo_eval net_third_only_def ipwho_body_def)
  from getIPInfo_fallback_order [of net_third_only] r
  have v: "truthy (ip ipwho_record) \<and> ip ipwho_record \<noteq> JStr ''Unknown''"
    by blast
  have t: "\<forall>a\<in>set apis. try_api net_all_throw a = None"
    by (simp add: apis_def try_api_def net_all_throw_def)
  from getIPInfo_fallback_order [of net_all_throw] t
  have n: "snd (getIPInfo net_all_throw) = None"
    and "fst (getIPInfo net_all_throw) = map url apis"
    by blast+
  then have a: "fst (getIPInfo net_all_throw)
       = [''https://ipapi.co/json/'', ''https://freeipapi.com/api/json'', ''https://ipwho.is/'']"
    by (simp add: apis_def)
  from r f v n a show ?thesis by blast
qed

text \<open>
  C10 as stated, refuted: where every request is answered ok with the empty object, the
  older version returns a record whose fields are all sentinels, and the current version,
  which rejects an \<open>Unknown\<close> ip, returns null.
\<close>

theorem getIPInfo_versions_differ:
  "old_getIPInfo net_all_empty = Some unknown_record
   \<and> snd (getIPInfo net_all_empty) = None
   \<and> old_getIPInfo net_all_empty \<noteq> snd (getIPInfo net_all_empty)"
proof -
  have o: "old_getIPInfo net_all_empty = Some unknown_record"
    by (simp add: old_getIPInfo_def net_all_empty_def unknown_record_def ipinfo_eval)
  have n: "snd (getIPInfo net_all_empty) = None"
    by (simp add: net_all_empty_def ipinfo_eval)
  from o n show ?thesis by simp
qed

text \<open>
  C10, amended. The two versions of getIPInfo agree on these environments: where every
  request throws or is answered not ok, both return null; and where the current version's
  first provider fails or yields the sentinel while \<open>freeipapi.com\<close> answers ok with a
  body whose normalized ip is truthy and not \<open>Unknown\<close>, both return that provider's
  normalized record.
\<close>

theorem getIPInfo_versions_agree:
  "((\<forall>u. env u = FetchThrows \<or> env u = RespNotOk) \<longrightarrow>
      old_getIPInfo env = None \<and> snd (getIPInfo env) = None)
   \<and> (\<forall>data r. try_api env (apis ! 0) = None
         \<and> env ''https://freeipapi.com/api/json'' = RespOk (Some data)
         \<and> parse_freeipapi data = Some r \<and> ip_valid r \<longrightarrow>
      old_getIPInfo env = Some r \<and> snd (getIPInfo env) = Some r)"
proof -
  have 1: "old_getIPInfo env = None \<and> snd (getIPInfo env) = None"
    if a: "\<forall>u. env u = FetchThrows \<or> env u = RespNotOk"
  proof
    show "old_getIPInfo env = None"
      using a [rule_format, of "''https://freeipapi.com/api/json''"]
            a [rule_format, of "''http://ip-api.com/json''"]
      by (auto simp: old_getIPInfo_def old_fallback_def)
    have "\<forall>x\<in>set apis. try_api env x = None"
      using a by (simp add: try_api_None_iff) blast
    then show "snd (getIPInfo env) = None"
      unfolding getIPInfo_def loop_None_iff .
  qed
  have 2: "old_getIPInfo env = Some r \<and> snd (getIPInfo env) = Some r"
    if h: "try_api env (apis ! 0) = None
         \<and> env ''https://freeipapi.com/api/json'' = RespOk (Some data)
         \<and> parse_freeipapi data = Some r \<and> ip_valid r" for data r
  proof
    from h show "old_getIPInfo env = Some r"
      by (simp add: old_getIPInfo_def)
    from h have "try_api env (apis ! 1) = Some r"
      by (simp add: apis_def try_api_def)
    with h show "snd (getIPInfo env) = Some r"
      by (simp add: getIPInfo_def apis_def)
  qed
  from 1 2 show ?thesis by blast
qed

theorem getIPInfo_versions_agree_witness:
  "old_getIPInfo net_all_throw = None \<and> snd (getIPInfo net_all_throw) = None
   \<and> old_getIPInfo net_second_only = parse_freeipapi freeipapi_body
   \<and> snd (getIPInfo net_second_only) = parse_freeipapi freeipapi_body
   \<and> ip (the (old_getIPInfo net_second_only)) = JStr ''198.51.100.4''"
proof -
  have t: "\<forall>u. net_all_throw u = FetchThrows \<or> net_all_throw u = RespNotOk"
    by (simp add: net_all_throw_def)
  obtain r where r: "parse_freeipapi freeipapi_body = Some r"
    and i: "ip r = JStr ''198.51.100.4''"
    by (simp add: parse_freeipapi_def freeipapi_body_def js_or_def)
  have s: "try_api net_second_only (apis ! 0) = None
         \<and> net_second_only ''https://freeipapi.com/api/json'' = RespOk (Some freeipapi_body)
         \<and> parse_freeipapi freeipapi_body = Some r \<and> ip_valid r"
    using r i by (simp add: apis_def try_api_def net_second_only_def ip_valid_def)
  from getIPInfo_versions_agree [of net_all_throw] t
  have 1: "old_getIPInfo net_all_throw = None \<and> snd (getIPInfo net_all_throw) = None"
    by blast
  from getIPInfo_versions_agree [of net_second_only] s
  have 2: "old_getIPInfo net_second_only = Some r \<and> snd (getIPInfo net_second_only) = Some r"
    by blast
  from 1 2 r i show ?thesis by simp
qed

section \<open>Properties of the WebRTC probe\<close>

lemma distinct_set_add: "distinct ips \<Longrightarrow> distinct (set_add ips x)"
  by (simp add: set_add_def)

lemma set_set_add: "set (set_add ips x) = insert x (set ips)"
  by (auto simp: set_add_def)

lemma gather_leaking: "leaking (gather evs ips pub) \<longleftrightarrow> localIPs (gather evs ips pub) \<noteq> []"
  by (induction evs ips pub rule: gather.induct)
     (simp_all add: finish_def split: option.splits)

lemma gather_distinct: "distinct ips \<Longrightarrow> distinct (localIPs (gather evs ips pub))"
  by (induction evs ips pub rule: gather.induct)
     (simp_all add: finish_def distinct_set_add split: option.splits)

lemma gather_public:
  "(\<forall>p. pub = Some p \<longrightarrow> p \<in> set ips) \<Longrightarrow>
   publicIP (gather evs ips pub) = Some q \<Longrightarrow> q \<in> set (localIPs (gather evs ips pub))"
proof (induction evs ips pub rule: gather.induct)
  case (1 ips pub)
  then show ?case by (simp add: finish_def)
next
  case (2 evs ips pub)
  then show ?case by (simp add: finish_def)
next
  case (3 candidate evs ips pub)
  show ?case
  proof (cases "ip_match candidate")
    case None
    with 3 show ?thesis by simp
  next
    case (Some ipa)
    consider (loc) "prefix ''192.168.'' ipa \<or> prefix ''10.'' ipa \<or> prefix ''172.'' ipa"
      | (pub) "\<not> (prefix ''192.168.'' ipa \<or> prefix ''10.'' ipa \<or> prefix ''172.'' ipa)"
          "\<not> prefix ''0.'' ipa"
      | (zero) "\<not> (prefix ''192.168.'' ipa \<or> prefix ''10.'' ipa \<or> prefix ''172.'' ipa)"
          "prefix ''0.'' ipa"
      by blast
    then show ?thesis
    proof cases
      case loc
      have inv: "\<forall>p. pub = Some p \<longrightarrow> p \<in> set (set_add ips ipa)"
        using "3.prems"(1) by (simp add: set_set_add)
      from "3.IH"(2) [OF Some loc inv] "3.prems"(2) Some loc show ?thesis by simp
    next
      case pub
      have inv: "\<forall>p. Some ipa = Some p \<longrightarrow> p \<in> set (set_add ips ipa)"
        by (simp add: set_set_add)
      from "3.IH"(3) [OF Some pub inv] "3.prems"(2) Some pub show ?thesis by simp
    next
      case zero
      from "3.IH"(4) [of ipa] "3.prems" Some zero show ?thesis by simp
    qed
  qed
qed

text \<open>
  C3. Without the RTCPeerConnection capability getWebRTCInfo returns exactly
  \<open>{localIPs: [], publicIP: null, leaking: false}\<close>; and in every result it returns,
  leaking is true exactly when localIPs is not empty, and localIPs has no address twice.
\<close>

theorem getWebRTCInfo_leaking_iff:
  "(\<not> hasRTCPeerConnection env \<longrightarrow>
      getWebRTCInfo env = \<lparr> localIPs = [], publicIP = None, leaking = False \<rparr>)
   \<and> (leaking (getWebRTCInfo env) \<longleftrightarrow> localIPs (getWebRTCInfo env) \<noteq> [])
   \<and> (leaking (getWebRTCInfo env) \<longleftrightarrow> 0 < length (localIPs (getWebRTCInfo env)))
   \<and> distinct (localIPs (getWebRTCInfo env))"
proof -
  have d: "distinct (localIPs (gather (iceEvents env) [] None))"
    by (rule gather_distinct) simp
  show ?thesis
    using d gather_leaking [of "iceEvents env" "[]" None]
    by (simp add: getWebRTCInfo_def Let_def)
qed

lemmas ip_match_eval =
  match_here_def digits13_def take_digits_def dot_def is_digit_def List.map_filter_def

lemma rtc_leaky_result:
  "getWebRTCInfo rtc_leaky =
     \<lparr> localIPs = [''192.168.1.7'', ''203.0.113.9''], publicIP = Some ''203.0.113.9'',
       leaking = True \<rparr>"
  by (simp add: getWebRTCInfo_def rtc_leaky_def finish_def set_add_def ip_match_eval)

theorem getWebRTCInfo_leaking_iff_witness:
  "\<not> hasRTCPeerConnection rtc_absent
   \<and> getWebRTCInfo rtc_absent = \<lparr> localIPs = [], publicIP = None, leaking = False \<rparr>
   \<and> leaking (getWebRTCInfo rtc_leaky)
   \<and> localIPs (getWebRTCInfo rtc_leaky) = [''192.168.1.7'', ''203.0.113.9'']"
proof -
  have a: "\<not> hasRTCPeerConnection rtc_absent"
    by (simp add: rtc_absent_def)
  have l: "localIPs (getWebRTCInfo rtc_leaky) = [''192.168.1.7'', ''203.0.113.9'']"
    by (simp add: rtc_leaky_result)
  then have n: "localIPs (getWebRTCInfo rtc_leaky) \<noteq> []"
    by simp
  from getWebRTCInfo_leaking_iff [of rtc_absent] a
  have z: "getWebRTCInfo rtc_absent = \<lparr> localIPs = [], publicIP = None, leaking = False \<rparr>"
    by blast
  from getWebRTCInfo_leaking_iff [of rtc_leaky] n
  have "leaking (getWebRTCInfo rtc_leaky)"
    by blast
  with a z l show ?thesis by blast
qed

text \<open>
  C9. In every result of getWebRTCInfo, a publicIP that is not null is also an element of
  localIPs: the handler adds the address it records as public to the set from which
  localIPs is built.
\<close>

theorem getWebRTCInfo_public_in_local:
  "publicIP (getWebRTCInfo env) = Some p \<Longrightarrow> p \<in> set (localIPs (getWebRTCInfo env))"
proof (cases "hasRTCPeerConnection env \<and> \<not> setupThrows env")
  case True
  assume "publicIP (getWebRTCInfo env) = Some p"
  with True have "publicIP (gather (iceEvents env) [] None) = Some p"
    by (simp add: getWebRTCInfo_def Let_def)
  then have "p \<in> set (localIPs (gather (iceEvents env) [] None))"
    by (rule gather_public [rotated]) simp
  with True show ?thesis
    by (simp add: getWebRTCInfo_def Let_def)
next
  case False
  assume "publicIP (getWebRTCInfo env) = Some p"
  with False show ?thesis
    by (auto simp: getWebRTCInfo_def Let_def split: if_splits)
qed

theorem getWebRTCInfo_public_in_local_witness:
  "publicIP (getWebRTCInfo rtc_leaky) = Some ''203.0.113.9''
   \<and> ''203.0.113.9'' \<in> set (localIPs (getWebRTCInfo rtc_leaky))"
proof -
  have h: "publicIP (getWebRTCInfo rtc_leaky) = Some ''203.0.113.9''"
    by (simp add: rtc_leaky_result)
  from h getWebRTCInfo_public_in_local [OF h] show ?thesis ..
qed

section \<open>Properties of the ad-blocker probe\<close>

text \<open>
  C4. When the fetch of the ad script throws, detectAdBlocker returns true whatever the
  inspection of the bait concluded; when the fetch resolves, it returns the boolean
  computed from the bait (zero offsetHeight, null offsetParent, or computed display
  none). The fetch is reached whenever neither DOM call raises.
\<close>

theorem detectAdBlocker_fetch_overrides:
  "(FetchThrew \<in> set (fst (detectAdBlocker env)) \<longrightarrow> snd (detectAdBlocker env) = True)
   \<and> (FetchResolved \<in> set (fst (detectAdBlocker env)) \<longrightarrow>
        snd (detectAdBlocker env)
          = (offsetHeight env = 0 \<or> offsetParentNull env \<or> display env = ''none''))
   \<and> (\<not> appendThrows env \<and> \<not> removeThrows env \<longrightarrow>
        (fetchThrows env \<longrightarrow> FetchThrew \<in> set (fst (detectAdBlocker env))
            \<and> snd (detectAdBlocker env) = True)
        \<and> (\<not> fetchThrows env \<longrightarrow> FetchResolved \<in> set (fst (detectAdBlocker env))
            \<and> snd (detectAdBlocker env) = blocked env))"
  by (simp add: detectAdBlocker_def blocked_def)

theorem detectAdBlocker_fetch_overrides_witness:
  "FetchThrew \<in> set (fst (detectAdBlocker ad_net_blocked))
   \<and> \<not> blocked ad_net_blocked
   \<and> snd (detectAdBlocker ad_net_blocked) = True
   \<and> FetchResolved \<in> set (fst (detectAdBlocker ad_bait_hidden))
   \<and> snd (detectAdBlocker ad_bait_hidden) = True
   \<and> FetchResolved \<in> set (fst (detectAdBlocker ad_plain))
   \<and> snd (detectAdBlocker ad_plain) = False"
proof -
  have t: "FetchThrew \<in> set (fst (detectAdBlocker ad_net_blocked))"
    by (simp add: detectAdBlocker_def ad_net_blocked_def)
  have nb: "\<not> blocked ad_net_blocked"
    by (simp add: blocked_def ad_net_blocked_def)
  have h: "FetchResolved \<in> set (fst (detectAdBlocker ad_bait_hidden))"
    by (simp add: detectAdBlocker_def ad_bait_hidden_def)
  have p: "FetchResolved \<in> set (fst (detectAdBlocker ad_plain))"
    by (simp add: detectAdBlocker_def ad_plain_def)
  from detectAdBlocker_fetch_overrides [of ad_net_blocked] t
  have 1: "snd (detectAdBlocker ad_net_blocked) = True" by blast
  have hb: "offsetHeight ad_bait_hidden = 0"
    by (simp add: ad_bait_hidden_def)
  have pb: "\<not> (offsetHeight ad_plain = 0 \<or> offsetParentNull ad_plain
              \<or> display ad_plain = ''none'')"
    by (simp add: ad_plain_def)
  from detectAdBlocker_fetch_overrides [of ad_bait_hidden] h hb
  have 2: "snd (detectAdBlocker ad_bait_hidden) = True"
    by blast
  from detectAdBlocker_fetch_overrides [of ad_plain] p pb
  have 3: "snd (detectAdBlocker ad_plain) = False"
    by blast
  from t nb h p 1 2 3 show ?thesis by blast
qed

text \<open>
  C6 as stated, refuted: in a plain page the function awaits the timer of 100 ms after it
  has appended the bait and before it removes it, so a suspension point lies between the
  two.
\<close>

theorem detectAdBlocker_suspends_with_bait:
  "fst (detectAdBlocker ad_plain)
     = [AppendBait, AwaitTimeout 100, InspectBait, RemoveBait, FetchResolved]
   \<and> while_bait_inserted (fst (detectAdBlocker ad_plain))
       = Some [AwaitTimeout 100, InspectBait]
   \<and> is_suspension (AwaitTimeout 100)"
  by (simp add: detectAdBlocker_def ad_plain_def while_bait_inserted_def)

text \<open>
  C6, amended. In every call of detectAdBlocker in which inserting the bait and removing
  it both succeed, the steps are, in this order: the insertion, the await of the timer of
  100 ms, the inspection, the removal, the await of the fetch. So exactly one suspension
  point, the await of the timer, lies between the insertion and the removal, and the
  fetch is awaited only after the removal. In every call that inserts the bait, the
  timer is awaited directly after the insertion, before anything else is done with the
  bait.
\<close>

theorem detectAdBlocker_bait_window:
  "(\<not> appendThrows env \<and> \<not> removeThrows env \<longrightarrow>
      fst (detectAdBlocker env)
        = [AppendBait, AwaitTimeout 100, InspectBait, RemoveBait,
           if fetchThrows env then FetchThrew else FetchResolved]
      \<and> while_bait_inserted (fst (detectAdBlocker env))
          = Some [AwaitTimeout 100, InspectBait])
   \<and> (\<forall>w. while_bait_inserted (fst (detectAdBlocker env)) = Some w \<longrightarrow>
          w = [AwaitTimeout 100, InspectBait]
          \<and> filter is_suspension w = [AwaitTimeout 100]
          \<and> (\<exists>f. fst (detectAdBlocker env) = [AppendBait] @ w @ [RemoveBait, f]
                 \<and> (f = FetchResolved \<or> f = FetchThrew)))
   \<and> (AppendBait \<in> set (fst (detectAdBlocker env)) \<longrightarrow>
          take 2 (fst (detectAdBlocker env)) = [AppendBait, AwaitTimeout 100])"
proof -
  have 1: "\<not> appendThrows env \<and> \<not> removeThrows env \<longrightarrow>
      fst (detectAdBlocker env)
        = [AppendBait, AwaitTimeout 100, InspectBait, RemoveBait,
           if fetchThrows env then FetchThrew else FetchResolved]
      \<and> while_bait_inserted (fst (detectAdBlocker env))
          = Some [AwaitTimeout 100, InspectBait]"
    by (simp add: detectAdBlocker_def while_bait_inserted_def)
  have 2: "w = [AwaitTimeout 100, InspectBait]
          \<and> filter is_suspension w = [AwaitTimeout 100]
          \<and> (\<exists>f. fst (detectAdBlocker env) = [AppendBait] @ w @ [RemoveBait, f]
                 \<and> (f = FetchResolved \<or> f = FetchThrew))"
    if "while_bait_inserted (fst (detectAdBlocker env)) = Some w" for w
    using that
    by (auto simp: detectAdBlocker_def while_bait_inserted_def split: if_splits)
  have 3: "AppendBait \<in> set (fst (detectAdBlocker env)) \<longrightarrow>
          take 2 (fst (detectAdBlocker env)) = [AppendBait, AwaitTimeout 100]"
    by (simp add: detectAdBlocker_def)
  from 1 2 3 show ?thesis by blast
qed

theorem detectAdBlocker_bait_window_witness:
  "fst (detectAdBlocker ad_net_blocked)
     = [AppendBait, AwaitTimeout 100, InspectBait, RemoveBait, FetchThrew]
   \<and> while_bait_inserted (fst (detectAdBlocker ad_plain))
       = Some [AwaitTimeout 100, InspectBait]
   \<and> filter is_suspension [AwaitTimeout 100, InspectBait] = [AwaitTimeout 100]
   \<and> AppendBait \<in> set (fst (detectAdBlocker ad_bait_gone))
   \<and> take 2 (fst (detectAdBlocker ad_bait_gone)) = [AppendBait, AwaitTimeout 100]"
proof -
  have a: "\<not> appendThrows ad_plain \<and> \<not> removeThrows ad_plain"
    by (simp add: ad_plain_def)
  have b: "\<not> appendThrows ad_net_blocked \<and> \<not> removeThrows ad_net_blocked"
    and bf: "fetchThrows ad_net_blocked"
    by (simp_all add: ad_net_blocked_def)
  have g: "AppendBait \<in> set (fst (detectAdBlocker ad_bait_gone))"
    by (simp add: detectAdBlocker_def ad_bait_gone_def)
  from detectAdBlocker_bait_window [of ad_net_blocked] b bf
  have 1: "fst (detectAdBlocker ad_net_blocked)
     = [AppendBait, AwaitTimeout 100, InspectBait, RemoveBait, FetchThrew]"
    by simp
  from detectAdBlocker_bait_window [of ad_plain] a
  have 2: "while_bait_inserted (fst (detectAdBlocker ad_plain))
       = Some [AwaitTimeout 100, InspectBait]"
    by blast
  with detectAdBlocker_bait_window [of ad_plain]
  have 3: "filter is_suspension [AwaitTimeout 100, InspectBait] = [AwaitTimeout 100]"
    by blast
  from detectAdBlocker_bait_window [of ad_bait_gone] g
  have 4: "take 2 (fst (detectAdBlocker ad_bait_gone)) = [AppendBait, AwaitTimeout 100]"
    by blast
  from 1 2 3 4 g show ?thesis by blast
qed

section \<open>Properties of the canvas probe\<close>

lemma hashString_length: "length (hashString s) \<le> 8"
proof -
  have "- (2 ^ 31) \<le> hash_loop 0 s \<and> hash_loop 0 s < 2 ^ 31"
    by (rule hash_loop_range) simp_all
  then have "nat \<bar>hash_loop 0 s\<bar> < 16 ^ 8"
    by simp linarith
  then have "length (toHex (nat \<bar>hash_loop 0 s\<bar>)) \<le> 8"
    by (rule toHex_length [rotated]) simp
  then show ?thesis
    by (simp add: hashString_def toString16_def)
qed

text \<open>
  C7. getCanvasFingerprint is deterministic for a fixed rendering environment: two
  invocations whose environments behave alike on what the function asks of them (the
  canvas and its context, and the rendering of the one fixed drawing on a fresh canvas)
  give the same output, whatever else differs. The output has at most 16 characters.
  Whenever no 2D drawing context can be obtained, because \<open>getContext\<close> gives none or
  because creating the canvas or asking for the context raises, the output is
  \<open>Not available\<close>; so it is when drawing or encoding raises. Otherwise the output is
  the hash of the encoded image, which has at most 8 characters, so that the truncation
  to 16 never removes any.
\<close>

theorem getCanvasFingerprint_bounded:
  "length (getCanvasFingerprint env) \<le> 16
   \<and> (\<not> hasContext2d env \<or> createThrows env \<longrightarrow>
        getCanvasFingerprint env = ''Not available'')
   \<and> (render env canvas_ops = None \<longrightarrow> getCanvasFingerprint env = ''Not available'')
   \<and> (createThrows env' = createThrows env \<and> hasContext2d env' = hasContext2d env
        \<and> render env' canvas_ops = render env canvas_ops \<longrightarrow>
      getCanvasFingerprint env' = getCanvasFingerprint env)
   \<and> (\<forall>dataUrl. \<not> createThrows env \<and> hasContext2d env
          \<and> render env canvas_ops = Some dataUrl \<longrightarrow>
        getCanvasFingerprint env = hashString dataUrl
        \<and> length (getCanvasFingerprint env) \<le> 8)"
proof -
  have t: "substring0 16 (hashString u) = hashString u" for u
    using hashString_length [of u] by (simp add: substring0_def)
  have 1: "length (getCanvasFingerprint env) \<le> 16"
  proof (cases "render env canvas_ops")
    case None
    then show ?thesis by (simp add: getCanvasFingerprint_def)
  next
    case (Some u)
    have "length (hashString u) \<le> 16"
      using hashString_length [of u] by simp
    with Some show ?thesis by (simp add: getCanvasFingerprint_def t)
  qed
  have 2: "\<not> hasContext2d env \<or> createThrows env \<longrightarrow>
        getCanvasFingerprint env = ''Not available''"
    by (simp add: getCanvasFingerprint_def)
  have 3: "render env canvas_ops = None \<longrightarrow> getCanvasFingerprint env = ''Not available''"
    by (simp add: getCanvasFingerprint_def)
  have 4: "createThrows env' = createThrows env \<and> hasContext2d env' = hasContext2d env
        \<and> render env' canvas_ops = render env canvas_ops \<longrightarrow>
      getCanvasFingerprint env' = getCanvasFingerprint env"
    by (simp add: getCanvasFingerprint_def)
  have 5: "\<forall>dataUrl. \<not> createThrows env \<and> hasContext2d env
          \<and> render env canvas_ops = Some dataUrl \<longrightarrow>
        getCanvasFingerprint env = hashString dataUrl
        \<and> length (getCanvasFingerprint env) \<le> 8"
    using hashString_length by (simp add: getCanvasFingerprint_def t)
  from 1 2 3 4 5 show ?thesis by blast
qed

lemma hashString_data_url: "hashString data_url = ''4fce4ba4''"
  by (simp add: data_url_def hashString_def toString16_def hash_step_def js_shl_def
        js_and_def to_int32_def toHex.simps hexDigit_def)

theorem getCanvasFingerprint_bounded_witness:
  "getCanvasFingerprint canvas_none = ''Not available''
   \<and> getCanvasFingerprint canvas_raises = ''Not available''
   \<and> getCanvasFingerprint canvas_tainted = ''Not available''
   \<and> getCanvasFingerprint canvas_blank = ''4fce4ba4''
   \<and> render canvas_blank2 [] \<noteq> render canvas_blank []
   \<and> getCanvasFingerprint canvas_blank2 = getCanvasFingerprint canvas_blank"
proof -
  have n: "\<not> hasContext2d canvas_none \<or> createThrows canvas_none"
    by (simp add: canvas_none_def)
  have r: "\<not> hasContext2d canvas_raises \<or> createThrows canvas_raises"
    by (simp add: canvas_raises_def)
  have t: "render canvas_tainted canvas_ops = None"
    by (simp add: canvas_tainted_def)
  have b: "\<not> createThrows canvas_blank \<and> hasContext2d canvas_blank
           \<and> render canvas_blank canvas_ops = Some data_url"
    by (simp add: canvas_blank_def)
  have s: "createThrows canvas_blank2 = createThrows canvas_blank
     \<and> hasContext2d canvas_blank2 = hasContext2d canvas_blank
     \<and> render canvas_blank2 canvas_ops = render canvas_blank canvas_ops"
    by (simp add: canvas_blank_def canvas_blank2_def)
  have d: "render canvas_blank2 [] \<noteq> render canvas_blank []"
    by (simp add: canvas_blank_def canvas_blank2_def canvas_ops_def data_url_def)
  from getCanvasFingerprint_bounded [of canvas_none] n
  have 1: "getCanvasFingerprint canvas_none = ''Not available''"
    by blast
  from getCanvasFingerprint_bounded [of canvas_raises] r
  have 2: "getCanvasFingerprint canvas_raises = ''Not available''"
    by blast
  from getCanvasFingerprint_bounded [of canvas_tainted] t
  have 3: "getCanvasFingerprint canvas_tainted = ''Not available''"
    by blast
  from getCanvasFingerprint_bounded [of canvas_blank] b
  have "getCanvasFingerprint canvas_blank = hashString data_url"
    by blast
  then have 4: "getCanvasFingerprint canvas_blank = ''4fce4ba4''"
    by (simp only: hashString_data_url)
  from getCanvasFingerprint_bounded [of canvas_blank canvas_blank2] s
  have 5: "getCanvasFingerprint canvas_blank2 = getCanvasFingerprint canvas_blank"
    by blast
  from 1 2 3 4 5 d show ?thesis by blast
qed

section \<open>Properties of the font probe\<close>

lemma outer_loop_filter:
  "outer_loop env bw fonts detected
     = detected @ filter (\<lambda>font. inner_loop env bw font 0) fonts"
  by (induction fonts arbitrary: detected) simp_all

lemma testFonts_distinct: "distinct testFonts"
  by (simp add: testFonts_def)

lemma testFonts_length: "length testFonts = 29"
  by (simp add: testFonts_def)

text \<open>
  C8. detectFonts returns a subsequence of the fixed list of 29 candidate fonts: every
  element is a candidate, the candidates' order is kept, and none occurs twice. Without a
  2D drawing context it returns the empty list.
\<close>

theorem detectFonts_subsequence:
  "set (detectFonts env) \<subseteq> set testFonts
   \<and> subseq (detectFonts env) testFonts
   \<and> distinct (detectFonts env)
   \<and> length testFonts = 29
   \<and> length (detectFonts env) \<le> 29
   \<and> (\<not> hasCtx env \<longrightarrow> detectFonts env = [])"
proof -
  let ?P = "\<lambda>font. inner_loop env (map (getWidth env) baseFonts) font 0"
  have eq: "detectFonts env = (if \<not> hasCtx env then [] else filter ?P testFonts)"
    by (simp add: detectFonts_def Let_def outer_loop_filter)
  have sub: "subseq (detectFonts env) testFonts"
    unfolding eq by simp
  have st: "set (detectFonts env) \<subseteq> set testFonts"
    unfolding eq by auto
  have d: "distinct (detectFonts env)"
    unfolding eq using testFonts_distinct by simp
  have l: "length (detectFonts env) \<le> 29"
    using list_emb_length [OF sub] by (simp add: testFonts_length)
  have e: "\<not> hasCtx env \<longrightarrow> detectFonts env = []"
    by (simp add: eq)
  from st sub d l e testFonts_length show ?thesis by blast
qed

lemma fonts_two_result: "detectFonts fonts_two = [''Georgia'', ''Ubuntu'']"
  by (simp add: detectFonts_def Let_def outer_loop_filter fonts_two_def testFonts_def
        baseFonts_def getWidth_def layered_def testSize_def inner_loop.simps
        suffix_to_prefix)

theorem detectFonts_subsequence_witness:
  "\<not> hasCtx fonts_no_ctx \<and> detectFonts fonts_no_ctx = []
   \<and> detectFonts fonts_two = [''Georgia'', ''Ubuntu'']
   \<and> subseq [''Georgia'', ''Ubuntu''] testFonts"
proof -
  have n: "\<not> hasCtx fonts_no_ctx"
    by (simp add: fonts_no_ctx_def)
  from detectFonts_subsequence [of fonts_no_ctx] n
  have 1: "detectFonts fonts_no_ctx = []"
    by blast
  from detectFonts_subsequence [of fonts_two]
  have "subseq (detectFonts fonts_two) testFonts"
    by blast
  then have 2: "subseq [''Georgia'', ''Ubuntu''] testFonts"
    by (simp only: fonts_two_result)
  from n 1 2 fonts_two_result show ?thesis by blast
qed

section \<open>Properties of the latency probe\<close>

lemma sample_loop_map_filter:
  "sample_loop env i js acc = acc @ List.map_filter (env i) js"
  by (induction js arbitrary: acc) (simp_all add: List.map_filter_def split: option.splits)

lemma successes_length: "length (successes env i) \<le> 3"
proof -
  have "length (successes env i) \<le> length [0..<3]"
    unfolding successes_def List.map_filter_def length_map by (rule length_filter_le [THEN order_trans]) simp
  then show ?thesis by simp
qed

lemma test_server_length: "length (fst (test_server env i st)) = length (fst st)"
  by (simp add: test_server_def Let_def)

lemma test_server_other:
  "k \<noteq> i \<Longrightarrow> fst (test_server env i st) ! k = fst st ! k"
  by (simp add: test_server_def Let_def)

lemma test_server_latency_kept:
  "i < length (fst st) \<Longrightarrow> successes env i = [] \<Longrightarrow>
     latency (fst (test_server env i st) ! i) = latency (fst st ! i)"
  by (simp add: test_server_def Let_def sample_loop_map_filter successes_def)

lemma test_server_settled:
  "i < length (fst st) \<Longrightarrow> settled env i (fst (test_server env i st) ! i)"
  by (simp add: test_server_def Let_def sample_loop_map_filter successes_def
        settled_def middle_entry_def)

lemma speed_loop_length:
  "length (fst (speed_loop env i st)) = length (fst st)"
proof (induction env i st rule: speed_loop.induct)
  case (1 env i st)
  then show ?case
    by (subst speed_loop.simps) (simp add: test_server_length)
qed

lemma speed_loop_before:
  "k < i \<Longrightarrow> fst (speed_loop env i st) ! k = fst st ! k"
proof (induction env i st rule: speed_loop.induct)
  case (1 env i st)
  show ?case
  proof (cases "i < length servers")
    case True
    from "1.prems" have "k < i + 1" by simp
    from "1.IH" [OF True this] "1.prems" True show ?thesis
      by (subst speed_loop.simps) (simp add: test_server_other)
  next
    case False
    then show ?thesis by (subst speed_loop.simps) simp
  qed
qed

lemma speed_loop_settled:
  "length (fst st) = length servers \<Longrightarrow> i \<le> k \<Longrightarrow> k < length servers \<Longrightarrow>
     settled env k (fst (speed_loop env i st) ! k)
     \<and> (successes env k = [] \<longrightarrow>
          latency (fst (speed_loop env i st) ! k) = latency (fst st ! k))"
proof (induction env i st rule: speed_loop.induct)
  case (1 env i st)
  from "1.prems" have lt: "i < length servers" by simp
  have step: "speed_loop env i st = speed_loop env (i + 1) (test_server env i st)"
    using lt by (subst speed_loop.simps) simp
  have len: "length (fst (test_server env i st)) = length servers"
    using "1.prems"(1) by (simp add: test_server_length)
  show ?case
  proof (cases "k = i")
    case True
    have "fst (speed_loop env (i + 1) (test_server env i st)) ! i
            = fst (test_server env i st) ! i"
      by (rule speed_loop_before) simp
    moreover have "settled env i (fst (test_server env i st) ! i)"
      using lt "1.prems"(1) by (simp add: test_server_settled)
    moreover have "successes env i = [] \<longrightarrow>
        latency (fst (test_server env i st) ! i) = latency (fst st ! i)"
      using lt "1.prems"(1) by (simp add: test_server_latency_kept)
    ultimately show ?thesis
      using True step by simp
  next
    case False
    with "1.prems" have "i + 1 \<le> k" by simp
    from "1.IH" [OF lt len this "1.prems"(3)] False show ?thesis
      using step by (simp add: test_server_other)
  qed
qed

lemma runSpeedTests_entry:
  assumes "i < length servers"
  shows "settled env i (fst (runSpeedTests env) ! i)"
    and "successes env i = [] \<Longrightarrow> latency (fst (runSpeedTests env) ! i) = None"
proof -
  let ?init = "map (\<lambda>s. \<lparr> server = target_server s, location = target_location s,
                         latency = None, status = Pending \<rparr>) servers"
  have len: "length (fst (?init, [?init])) = length servers" by simp
  note main = speed_loop_settled [OF len le0 assms, of env]
  from main show "settled env i (fst (runSpeedTests env) ! i)"
    by (simp add: runSpeedTests_def Let_def)
  assume "successes env i = []"
  with main assms show "latency (fst (runSpeedTests env) ! i) = None"
    by (simp add: runSpeedTests_def Let_def)
qed

lemma upt_0_3: "[0..<3] = [0, 1, 2]"
  by (simp add: numeral_3_eq_3 numeral_2_eq_2 upt_rec)

lemma lat_two_successes: "successes lat_two 0 = [10, 20]"
  by (simp add: successes_def lat_two_def List.map_filter_def upt_0_3)

lemma median_two: "median [10, 20] = 15"
  by (simp add: median_def)

text \<open>
  C5. For every server entry for which at least one of the at most 3 samples succeeded,
  the recorded latency is to be the median of the successful samples, as the comment in
  the source says (\<open>Run 3 tests and take the median\<close>), with status \<open>done\<close>. The
  code misses this when exactly two samples succeed: it reads the sorted samples at index
  \<open>\<lfloor>2 / 2\<rfloor> = 1\<close>. With samples of 10 ms and 20 ms and a failed third request, it
  records 20, where the median of the two samples is 15.
\<close>

theorem runSpeedTests_two_samples:
  "successes lat_two 0 = [10, 20]
   \<and> status (fst (runSpeedTests lat_two) ! 0) = Done
   \<and> latency (fst (runSpeedTests lat_two) ! 0) = Some 20
   \<and> median (successes lat_two 0) = 15
   \<and> map_option real_of_int (latency (fst (runSpeedTests lat_two) ! 0))
       \<noteq> Some (median (successes lat_two 0))"
proof -
  have "settled lat_two 0 (fst (runSpeedTests lat_two) ! 0)"
    by (rule runSpeedTests_entry) (simp add: servers_def)
  then have r: "status (fst (runSpeedTests lat_two) ! 0) = Done
      \<and> latency (fst (runSpeedTests lat_two) ! 0) = Some 20"
    by (simp add: settled_def lat_two_successes middle_entry_def)
  then show ?thesis
    by (simp add: lat_two_successes median_two)
qed

text \<open>
  What the loop leaves in an entry, for every environment: the status is \<open>done\<close> and
  the latency the sorted successful samples at index \<open>\<lfloor>n / 2\<rfloor>\<close> when there are any,
  which is their median when their number is odd; the status is \<open>error\<close> and the
  latency still null when there are none.
\<close>

lemma runSpeedTests_entries:
  "i < length servers \<Longrightarrow>
   length (successes env i) \<le> 3
   \<and> (successes env i \<noteq> [] \<longrightarrow>
        status (fst (runSpeedTests env) ! i) = Done
        \<and> latency (fst (runSpeedTests env) ! i)
            = Some (sort (successes env i) ! (length (successes env i) div 2))
        \<and> (odd (length (successes env i)) \<longrightarrow>
             map_option real_of_int (latency (fst (runSpeedTests env) ! i))
               = Some (median (successes env i))))
   \<and> (successes env i = [] \<longrightarrow>
        status (fst (runSpeedTests env) ! i) = Error
        \<and> latency (fst (runSpeedTests env) ! i) = None)"
proof -
  assume i: "i < length servers"
  let ?s = "successes env i"
  let ?m = "sort ?s ! (length ?s div 2)"
  note st = runSpeedTests_entry [OF i, of env]
  have some: "?s \<noteq> [] \<longrightarrow>
      status (fst (runSpeedTests env) ! i) = Done
      \<and> latency (fst (runSpeedTests env) ! i) = Some ?m"
    using st(1) by (simp add: settled_def middle_entry_def)
  have odd: "odd (length ?s) \<longrightarrow> real_of_int ?m = median ?s"
    by (simp add: median_def Let_def)
  have none: "?s = [] \<longrightarrow>
      status (fst (runSpeedTests env) ! i) = Error
      \<and> latency (fst (runSpeedTests env) ! i) = None"
    using st by (simp add: settled_def)
  from successes_length [of env i] some odd none show ?thesis
    by auto
qed

end
